theory Spec2Isabelle
  imports Complex_Main "HOL-Library.Multiset"
begin

section \<open>Data model (src/index.tsx, Types and Schema)\<close>

text \<open>
  JavaScript numbers are modelled as \<^typ>\<open>real\<close> (finite values only; no NaN, no
  infinities), except clock readings of \<open>Date.now()\<close>, which are integers.
  Field names that would clash with a HOL constant, an Isar keyword or a program
  variable carry a suffix: \<open>x_coord\<close>, \<open>y_coord\<close> for \<open>Point.x\<close>, \<open>Point.y\<close>;
  \<open>id_c\<close>, \<open>text_c\<close> for \<open>Comment.id\<close>, \<open>Comment.text\<close>; \<open>id_p\<close>, \<open>createdAt_p\<close>,
  \<open>duration_p\<close> for the fields of \<open>Project\<close>.
\<close>

record Point =
  x_coord :: real
  y_coord :: real

record Stroke =
  color :: string
  width :: real
  points :: "Point list"

text \<open>
  \<open>Omit<Comment, 'id' | 'createdAt'>\<close> is the parent record; \<open>Comment\<close> extends it with the
  two fields that \<open>addComment\<close> assigns. The optional \<open>drawingData\<close> is an option.
\<close>

record CommentDraft =
  authorId :: string
  authorName :: string
  text_c :: string
  timestamp :: real
  resolved :: bool
  drawingData :: "Stroke list option"

record Comment = CommentDraft +
  id_c :: string
  createdAt :: int

datatype status = processing | ready

text \<open>\<open>Omit<Project, 'id' | 'publicId' | 'createdAt'>\<close> is the parent of \<open>Project\<close>.\<close>

record ProjectDraft =
  editorId :: string
  title :: string
  videoUrl :: string
  thumbnailUrl :: "string option"
  status_p :: status
  duration_p :: real

record Project = ProjectDraft +
  id_p :: string
  publicId :: string
  createdAt_p :: int

section \<open>Whiteboard capture (WhiteboardOverlay inside ReviewPage)\<close>

record DOMRect =
  rect_left :: real
  rect_top :: real
  rect_width :: real
  rect_height :: real

record MouseEvent =
  clientX :: real
  clientY :: real

definition getNormPoint :: "MouseEvent \<Rightarrow> DOMRect \<Rightarrow> Point" where
  "getNormPoint e rect =
     \<lparr> x_coord = (clientX e - rect_left rect) / rect_width rect,
       y_coord = (clientY e - rect_top rect) / rect_height rect \<rparr>"

text \<open>
  The React state that the capture handlers read and write: \<open>isDrawingMode\<close> and
  \<open>currentDrawings\<close> of \<open>ReviewPage\<close> (passed down as the props \<open>isDrawing\<close> and
  \<open>drawingData\<close>), and \<open>currentPoints\<close> of the overlay itself. The overlay stays
  mounted while the page is shown, so \<open>currentPoints\<close> survives every change of the
  \<open>isDrawing\<close> prop.
\<close>

record capture =
  isDrawingMode :: bool
  currentDrawings :: "Stroke list"
  currentPoints :: "Point list"

text \<open>
  A handler is a closure of the last render: it reads the values that the state had when
  the component was rendered (\<open>rendered\<close>), and its \<open>set...\<close> calls replace the values
  that the next render will show (\<open>pending\<close>). Two events handled with no render in
  between read the same \<open>rendered\<close> values, and the later \<open>set\<close> call of a state
  variable overwrites the earlier one.
\<close>

record ui =
  rendered :: capture
  pending :: capture

definition settled :: "capture \<Rightarrow> ui" where
  "settled s = \<lparr> rendered = s, pending = s \<rparr>"

definition render :: "ui \<Rightarrow> ui" where
  "render u = u\<lparr>rendered := pending u\<rparr>"

definition setIsDrawingMode :: "bool \<Rightarrow> ui \<Rightarrow> ui" where
  "setIsDrawingMode b u = u\<lparr>pending := (pending u)\<lparr>isDrawingMode := b\<rparr>\<rparr>"

definition setCurrentDrawings :: "Stroke list \<Rightarrow> ui \<Rightarrow> ui" where
  "setCurrentDrawings ds u = u\<lparr>pending := (pending u)\<lparr>currentDrawings := ds\<rparr>\<rparr>"

definition setCurrentPoints :: "Point list \<Rightarrow> ui \<Rightarrow> ui" where
  "setCurrentPoints ps u = u\<lparr>pending := (pending u)\<lparr>currentPoints := ps\<rparr>\<rparr>"

text \<open>
  Every handler returns the next state and the strokes handed to \<open>onDrawEnd\<close> during
  the event. \<open>onDrawEnd\<close> is \<open>(stroke) => setCurrentDrawings([...currentDrawings, stroke])\<close>,
  a closure of the render of \<open>ReviewPage\<close>.
\<close>

definition onDrawEnd :: "Stroke \<Rightarrow> ui \<Rightarrow> ui" where
  "onDrawEnd stroke u = setCurrentDrawings (currentDrawings (rendered u) @ [stroke]) u"

definition handleMouseDown :: "MouseEvent \<Rightarrow> DOMRect \<Rightarrow> ui \<Rightarrow> ui \<times> Stroke list" where
  "handleMouseDown e rect u =
     (if \<not> isDrawingMode (rendered u) then (u, [])
      else (setCurrentPoints [getNormPoint e rect] u, []))"

definition handleMouseMove :: "MouseEvent \<Rightarrow> DOMRect \<Rightarrow> ui \<Rightarrow> ui \<times> Stroke list" where
  "handleMouseMove e rect u =
     (if \<not> isDrawingMode (rendered u) \<or> length (currentPoints (rendered u)) = 0 then (u, [])
      else (setCurrentPoints (currentPoints (rendered u) @ [getNormPoint e rect]) u, []))"

definition handleMouseUp :: "ui \<Rightarrow> ui \<times> Stroke list" where
  "handleMouseUp u =
     (if \<not> isDrawingMode (rendered u) \<or> length (currentPoints (rendered u)) = 0 then (u, [])
      else (let stroke = \<lparr> color = ''#ef4444'', width = 4, points = currentPoints (rendered u) \<rparr>
            in (setCurrentPoints [] (onDrawEnd stroke u), [stroke])))"

text \<open>
  The events of the capture surface. \<open>MouseLeave\<close> is bound to \<open>handleMouseUp\<close> as
  \<open>MouseUp\<close> is. \<open>ClickDraw\<close> is the "Draw" button (rendered while drawing mode is off),
  \<open>ClickCloseDrawing\<close> the X button of the "Drawing Mode" badge (rendered while it is
  on). What "Draw" does to playback and to the selected comment is outside this state.
  \<open>Render\<close> is a re-render by React; it may come between any two events.
\<close>

datatype event =
    MouseDown MouseEvent DOMRect
  | MouseMove MouseEvent DOMRect
  | MouseUp
  | MouseLeave
  | ClickDraw
  | ClickCloseDrawing
  | Render

fun step :: "ui \<Rightarrow> event \<Rightarrow> ui \<times> Stroke list" where
  "step u (MouseDown e rect) = handleMouseDown e rect u"
| "step u (MouseMove e rect) = handleMouseMove e rect u"
| "step u MouseUp = handleMouseUp u"
| "step u MouseLeave = handleMouseUp u"
| "step u ClickDraw =
     (if isDrawingMode (rendered u) then (u, [])
      else (setCurrentDrawings [] (setIsDrawingMode True u), []))"
| "step u ClickCloseDrawing =
     (if isDrawingMode (rendered u) then (setIsDrawingMode False u, []) else (u, []))"
| "step u Render = (render u, [])"

fun run :: "ui \<Rightarrow> event list \<Rightarrow> ui \<times> Stroke list" where
  "run u [] = (u, [])"
| "run u (ev # evs) =
     (let (u1, out1) = step u ev; (u2, out2) = run u1 evs in (u2, out1 @ out2))"

definition emitted :: "ui \<Rightarrow> event list \<Rightarrow> Stroke list" where
  "emitted u evs = snd (run u evs)"

text \<open>
  One capture gesture in general: a press that is rendered, then runs of movements, each
  run followed by a render, then a release or a leave. A run holds the movements
  handled between two consecutive renders.
\<close>

definition moves :: "(MouseEvent \<times> DOMRect) list \<Rightarrow> event list" where
  "moves ms = map (\<lambda>(e, rect). MouseMove e rect) ms"

definition gesture ::
  "MouseEvent \<times> DOMRect \<Rightarrow> (MouseEvent \<times> DOMRect) list list \<Rightarrow> event \<Rightarrow> event list" where
  "gesture d runs fin =
     [MouseDown (fst d) (snd d), Render] @ concat (map (\<lambda>ms. moves ms @ [Render]) runs) @ [fin]"

text \<open>A gesture in which a render comes between every two events.\<close>

definition rendered_gesture ::
  "MouseEvent \<times> DOMRect \<Rightarrow> (MouseEvent \<times> DOMRect) list \<Rightarrow> event \<Rightarrow> event list" where
  "rendered_gesture d ms fin =
     [MouseDown (fst d) (snd d), Render]
     @ concat (map (\<lambda>(e, rect). [MouseMove e rect, Render]) ms) @ [fin]"

text \<open>The points of all pointer positions of a gesture, in the order of the events.\<close>

definition captured :: "MouseEvent \<times> DOMRect \<Rightarrow> (MouseEvent \<times> DOMRect) list \<Rightarrow> Point list" where
  "captured d ms = map (\<lambda>(e, rect). getNormPoint e rect) (d # ms)"

text \<open>The point of the last movement of a run, if the run has one.\<close>

definition lastPoint :: "(MouseEvent \<times> DOMRect) list \<Rightarrow> Point list" where
  "lastPoint ms = (case ms of [] \<Rightarrow> [] | m # ms' \<Rightarrow> [getNormPoint (fst (last ms)) (snd (last ms))])"

text \<open>The point of the press, then the last point of every run of movements.\<close>

definition kept :: "MouseEvent \<times> DOMRect \<Rightarrow> (MouseEvent \<times> DOMRect) list list \<Rightarrow> Point list" where
  "kept d runs = getNormPoint (fst d) (snd d) # concat (map lastPoint runs)"

definition ev0 :: MouseEvent where
  "ev0 = \<lparr> clientX = 60, clientY = 50 \<rparr>"

definition ev1 :: MouseEvent where
  "ev1 = \<lparr> clientX = 80, clientY = 70 \<rparr>"

definition ev2 :: MouseEvent where
  "ev2 = \<lparr> clientX = 70, clientY = 60 \<rparr>"

definition rect0 :: DOMRect where
  "rect0 = \<lparr> rect_left = 10, rect_top = 0, rect_width = 100, rect_height = 100 \<rparr>"

definition idle_on :: capture where
  "idle_on = \<lparr> isDrawingMode = True, currentDrawings = [], currentPoints = [] \<rparr>"

section \<open>Canvas replay (drawStroke)\<close>

datatype canvas_cmd =
    BeginPath
  | StrokeStyle string
  | LineWidth real
  | MoveTo real real
  | LineTo real real
  | StrokePath

definition canvasPoint :: "real \<Rightarrow> real \<Rightarrow> Point \<Rightarrow> real \<times> real" where
  "canvasPoint w h p = (x_coord p * w, y_coord p * h)"

definition drawStroke :: "real \<Rightarrow> real \<Rightarrow> Stroke \<Rightarrow> canvas_cmd list" where
  "drawStroke w h stroke =
     (if length (points stroke) < 2 then []
      else [BeginPath, StrokeStyle (color stroke), LineWidth (width stroke),
            MoveTo (fst (canvasPoint w h (points stroke ! 0))) (snd (canvasPoint w h (points stroke ! 0)))]
           @ map (\<lambda>p. LineTo (fst (canvasPoint w h p)) (snd (canvasPoint w h p))) (tl (points stroke))
           @ [StrokePath])"

text \<open>
  A pointer placed on the canvas pixel \<open>(cx, cy)\<close> of a canvas whose bounding rectangle is
  \<open>rect\<close> has the client coordinates \<open>(rect.left + cx, rect.top + cy)\<close>.
\<close>

definition mouseAt :: "DOMRect \<Rightarrow> real \<times> real \<Rightarrow> MouseEvent" where
  "mouseAt rect c = \<lparr> clientX = rect_left rect + fst c, clientY = rect_top rect + snd c \<rparr>"

definition p_half :: Point where
  "p_half = \<lparr> x_coord = 1 / 2, y_coord = 1 / 2 \<rparr>"

section \<open>Timeline markers (ReviewPage scrubber)\<close>

text \<open>\<open>duration || 1\<close>: the only falsy finite number is zero.\<close>

definition denominator :: "real \<Rightarrow> real" where
  "denominator duration = (if duration = 0 then 1 else duration)"

text \<open>The \<open>left\<close> style of a marker, in percent: \<open>(c.timestamp / (duration || 1)) * 100\<close>.\<close>

definition markerLeft :: "'a Comment_scheme \<Rightarrow> real \<Rightarrow> real" where
  "markerLeft c duration = (timestamp c / denominator duration) * 100"

section \<open>Mock data store and DatabaseService\<close>

text \<open>
  \<open>MOCK_DB.projects\<close> is a JavaScript object with string keys that are not array indices,
  so \<open>Object.values\<close> lists it in insertion order: an association list. \<open>MOCK_DB.comments\<close>
  is only read and written by key: \<open>comments\<close> is the map of its own properties.
\<close>

record MOCK_DB =
  projects :: "(string \<times> Project) list"
  comments :: "string \<rightharpoonup> Comment list"

fun setKey :: "string \<Rightarrow> 'v \<Rightarrow> (string \<times> 'v) list \<Rightarrow> (string \<times> 'v) list" where
  "setKey k v [] = [(k, v)]"
| "setKey k v ((k', v') # kvs) = (if k = k' then (k, v) # kvs else (k', v') # setKey k v kvs)"

definition objectValues :: "(string \<times> 'v) list \<Rightarrow> 'v list" where
  "objectValues kvs = map snd kvs"

text \<open>Decimal rendering of an integer inside a template literal.\<close>

fun show_nat :: "nat \<Rightarrow> string" where
  "show_nat n =
     (if n < 10 then [''0123456789'' ! n]
      else show_nat (n div 10) @ [''0123456789'' ! (n mod 10)])"

declare show_nat.simps [simp del]

definition show_int :: "int \<Rightarrow> string" where
  "show_int i = (if i < 0 then CHR ''-'' # show_nat (nat (- i)) else show_nat (nat i))"

datatype error = ValidationError | NotFoundError | TypeError

text \<open>
  The comparator handed to \<open>Array.prototype.sort\<close>, and the sort itself.
  \<open>Array.prototype.sort\<close> is stable and, for a consistent comparator, returns the one
  stable ordered permutation; insertion from the right computes it: an element goes in
  front of the first later element that it does not exceed.
\<close>

definition compareTimestamp :: "'a Comment_scheme \<Rightarrow> 'a Comment_scheme \<Rightarrow> real" where
  "compareTimestamp a b = timestamp a - timestamp b"

fun insertBy :: "('a \<Rightarrow> 'a \<Rightarrow> real) \<Rightarrow> 'a \<Rightarrow> 'a list \<Rightarrow> 'a list" where
  "insertBy cmp a [] = [a]"
| "insertBy cmp a (b # bs) = (if cmp a b \<le> 0 then a # b # bs else b # insertBy cmp a bs)"

definition sort_js :: "('a \<Rightarrow> 'a \<Rightarrow> real) \<Rightarrow> 'a list \<Rightarrow> 'a list" where
  "sort_js cmp xs = foldr (insertBy cmp) xs []"

text \<open>
  \<open>MOCK_DB.comments\<close> is an object literal, so a key that is not an own property is
  looked up in \<open>Object.prototype\<close>. These are the string-named properties of
  \<open>Object.prototype\<close>; each of them is a function, except \<open>__proto__\<close>, which reads as
  \<open>Object.prototype\<close> itself: truthy values that are no arrays, have no \<open>push\<close> and no
  \<open>findIndex\<close>, and are not iterable.
\<close>

definition objectPrototypeKeys :: "string list" where
  "objectPrototypeKeys =
     [''constructor'', ''__defineGetter__'', ''__defineSetter__'', ''hasOwnProperty'',
      ''__lookupGetter__'', ''__lookupSetter__'', ''isPrototypeOf'', ''propertyIsEnumerable'',
      ''toString'', ''valueOf'', ''__proto__'', ''toLocaleString'']"

text \<open>The value of \<open>MOCK_DB.comments[projectId]\<close>.\<close>

datatype slot = Undefined | Array "Comment list" | Inherited

definition readComments :: "MOCK_DB \<Rightarrow> string \<Rightarrow> slot" where
  "readComments d projectId =
     (case comments d projectId of
        Some cs \<Rightarrow> Array cs
      | None \<Rightarrow> if projectId \<in> set objectPrototypeKeys then Inherited else Undefined)"

text \<open>The two \<open>load\<close> closures: what a subscriber's callback is called with.\<close>

definition loadProjects :: "string \<Rightarrow> MOCK_DB \<Rightarrow> Project list" where
  "loadProjects userId d =
     filter (\<lambda>p. editorId p = userId \<or> id_p p = ''proj_1'') (objectValues (projects d))"

text \<open>
  \<open>MOCK_DB.comments[projectId] || []\<close> is the empty array for \<open>undefined\<close> and the value
  itself otherwise; spreading a value that is not iterable throws a \<open>TypeError\<close>, before
  the callback is called.
\<close>

definition loadComments :: "string \<Rightarrow> MOCK_DB \<Rightarrow> error + Comment list" where
  "loadComments projectId d =
     (case readComments d projectId of
        Undefined \<Rightarrow> Inr (sort_js compareTimestamp [])
      | Array cs \<Rightarrow> Inr (sort_js compareTimestamp cs)
      | Inherited \<Rightarrow> Inl TypeError)"

text \<open>
  The asynchronous services: a resolved promise is \<open>Inr\<close>, a rejected one \<open>Inl\<close>. An
  exception leaves the store as it was. The two readings of \<open>Date.now()\<close> and the
  random \<open>publicId\<close> are parameters. The key written by \<open>createProject\<close> starts with
  \<open>proj_\<close>, and \<open>addComment\<close> writes a key only when it read \<open>undefined\<close> under it, so
  every assignment creates or replaces an own property.
\<close>

definition createProject :: "ProjectDraft \<Rightarrow> int \<Rightarrow> string \<Rightarrow> int \<Rightarrow> MOCK_DB \<Rightarrow> error + (Project \<times> MOCK_DB)" where
  "createProject project idNow rnd createdNow d =
     (let newProject = ProjectDraft.extend project
            (Project.fields (''proj_'' @ show_int idNow) rnd createdNow)
      in Inr (newProject,
              d\<lparr> projects := setKey (id_p newProject) newProject (projects d),
                 comments := (comments d)(id_p newProject \<mapsto> []) \<rparr>))"

definition addComment :: "string \<Rightarrow> CommentDraft \<Rightarrow> int \<Rightarrow> int \<Rightarrow> MOCK_DB \<Rightarrow> error + (Comment \<times> MOCK_DB)" where
  "addComment projectId comment idNow createdNow d =
     (let newComment = CommentDraft.extend comment
            (Comment.fields (''c_'' @ show_int idNow) createdNow)
      in case readComments d projectId of
           Undefined \<Rightarrow>
             Inr (newComment, d\<lparr> comments := (comments d)(projectId \<mapsto> [] @ [newComment]) \<rparr>)
         | Array cs \<Rightarrow>
             Inr (newComment, d\<lparr> comments := (comments d)(projectId \<mapsto> cs @ [newComment]) \<rparr>)
         | Inherited \<Rightarrow> Inl TypeError)"

text \<open>\<open>Array.prototype.findIndex\<close>: the first index that satisfies the test, or \<open>-1\<close>.\<close>

fun findIndexFrom :: "int \<Rightarrow> ('a \<Rightarrow> bool) \<Rightarrow> 'a list \<Rightarrow> int" where
  "findIndexFrom i P [] = - 1"
| "findIndexFrom i P (a # as) = (if P a then i else findIndexFrom (i + 1) P as)"

definition findIndex :: "('a \<Rightarrow> bool) \<Rightarrow> 'a list \<Rightarrow> int" where
  "findIndex P as = findIndexFrom 0 P as"

definition resolveComment :: "string \<Rightarrow> string \<Rightarrow> bool \<Rightarrow> MOCK_DB \<Rightarrow> error + MOCK_DB" where
  "resolveComment projectId commentId r d =
     (case readComments d projectId of
        Undefined \<Rightarrow> Inr d
      | Inherited \<Rightarrow> Inl TypeError
      | Array cs \<Rightarrow>
          (let idx = findIndex (\<lambda>c. id_c c = commentId) cs
           in if idx \<noteq> - 1
              then Inr (d\<lparr> comments := (comments d)(projectId \<mapsto>
                          cs[nat idx := (cs ! nat idx)\<lparr>resolved := r\<rparr>]) \<rparr>)
              else Inr d))"

text \<open>
  The mutating operations as values, and their effect on the store; an operation whose
  promise is rejected has changed nothing.
\<close>

datatype store_op =
    CreateProject ProjectDraft int string int
  | AddComment string CommentDraft int int
  | ResolveComment string string bool

fun apply_op :: "MOCK_DB \<Rightarrow> store_op \<Rightarrow> MOCK_DB" where
  "apply_op d (CreateProject project idNow rnd createdNow) =
     (case createProject project idNow rnd createdNow d of Inl err \<Rightarrow> d | Inr (p, d') \<Rightarrow> d')"
| "apply_op d (AddComment projectId comment idNow createdNow) =
     (case addComment projectId comment idNow createdNow d of Inl err \<Rightarrow> d | Inr (c, d') \<Rightarrow> d')"
| "apply_op d (ResolveComment projectId commentId r) =
     (case resolveComment projectId commentId r d of Inl err \<Rightarrow> d | Inr d' \<Rightarrow> d')"

section \<open>Sync channel: subscriptions on interval timers\<close>

text \<open>
  The host's timers, as the program uses them: \<open>setInterval\<close> returns a handle that was
  never issued before and registers the closure; \<open>clearInterval\<close> removes the
  registration; a timer that fires runs the closure registered under its handle, if
  there is one. The period is recorded but plays no role: a registered timer may fire at
  any moment between two other events.

  A subscription is named by the handle of its timer, and \<open>delivered\<close> records every
  invocation of a callback together with the subscription it belongs to.
\<close>

datatype loader = LoadProjects string | LoadComments string

datatype payload = ProjectsPayload "Project list" | CommentsPayload "Comment list"

record runtime =
  store :: MOCK_DB
  timers :: "nat \<rightharpoonup> loader \<times> nat"
  nextTimer :: nat
  delivered :: "(nat \<times> payload) list"

definition load :: "loader \<Rightarrow> MOCK_DB \<Rightarrow> error + payload" where
  "load l d =
     (case l of
        LoadProjects userId \<Rightarrow> Inr (ProjectsPayload (loadProjects userId d))
      | LoadComments projectId \<Rightarrow>
          (case loadComments projectId d of
             Inl err \<Rightarrow> Inl err
           | Inr cs \<Rightarrow> Inr (CommentsPayload cs)))"

definition callback :: "nat \<Rightarrow> payload \<Rightarrow> runtime \<Rightarrow> runtime" where
  "callback h v rt = rt\<lparr>delivered := delivered rt @ [(h, v)]\<rparr>"

definition setInterval :: "loader \<Rightarrow> nat \<Rightarrow> runtime \<Rightarrow> nat \<times> runtime" where
  "setInterval l ms rt =
     (nextTimer rt, rt\<lparr>timers := (timers rt)(nextTimer rt \<mapsto> (l, ms)), nextTimer := Suc (nextTimer rt)\<rparr>)"

definition clearInterval :: "nat \<Rightarrow> runtime \<Rightarrow> runtime" where
  "clearInterval h rt = rt\<lparr>timers := (timers rt)(h := None)\<rparr>"

text \<open>A \<open>load\<close> that throws inside a timer invokes no callback; the timer stays registered.\<close>

definition fire :: "nat \<Rightarrow> runtime \<Rightarrow> runtime" where
  "fire h rt =
     (case timers rt h of
        None \<Rightarrow> rt
      | Some (l, ms) \<Rightarrow>
          (case load l (store rt) of
             Inl err \<Rightarrow> rt
           | Inr v \<Rightarrow> callback h v rt))"

text \<open>
  Both subscribe functions call \<open>load()\<close> once, start the interval and return
  \<open>() => clearInterval(interval)\<close>; the returned closure is represented by the handle
  and run by \<open>unsubscribe\<close>. When the first \<open>load()\<close> throws, no callback is invoked, no
  timer is started and nothing is returned.
\<close>

definition subscribeToProjects :: "string \<Rightarrow> runtime \<Rightarrow> error + (nat \<times> runtime)" where
  "subscribeToProjects userId rt =
     (case load (LoadProjects userId) (store rt) of
        Inl err \<Rightarrow> Inl err
      | Inr v \<Rightarrow> Inr (setInterval (LoadProjects userId) 2000 (callback (nextTimer rt) v rt)))"

definition subscribeToComments :: "string \<Rightarrow> runtime \<Rightarrow> error + (nat \<times> runtime)" where
  "subscribeToComments projectId rt =
     (case load (LoadComments projectId) (store rt) of
        Inl err \<Rightarrow> Inl err
      | Inr v \<Rightarrow> Inr (setInterval (LoadComments projectId) 1000 (callback (nextTimer rt) v rt)))"

definition unsubscribe :: "nat \<Rightarrow> runtime \<Rightarrow> runtime" where
  "unsubscribe h rt = clearInterval h rt"

datatype sync_event =
    Fire nat
  | Unsubscribe nat
  | SubscribeToProjects string
  | SubscribeToComments string
  | Mutate store_op

fun sync_step :: "runtime \<Rightarrow> sync_event \<Rightarrow> runtime" where
  "sync_step rt (Fire h) = fire h rt"
| "sync_step rt (Unsubscribe h) = unsubscribe h rt"
| "sync_step rt (SubscribeToProjects userId) =
     (case subscribeToProjects userId rt of Inl err \<Rightarrow> rt | Inr (h, rt') \<Rightarrow> rt')"
| "sync_step rt (SubscribeToComments projectId) =
     (case subscribeToComments projectId rt of Inl err \<Rightarrow> rt | Inr (h, rt') \<Rightarrow> rt')"
| "sync_step rt (Mutate op) = rt\<lparr>store := apply_op (store rt) op\<rparr>"

definition sync_run :: "runtime \<Rightarrow> sync_event list \<Rightarrow> runtime" where
  "sync_run rt evs = foldl sync_step rt evs"

text \<open>The invocations received so far by the callback of subscription \<open>h\<close>.\<close>

definition invocations :: "nat \<Rightarrow> runtime \<Rightarrow> payload list" where
  "invocations h rt = map snd (filter (\<lambda>e. fst e = h) (delivered rt))"

section \<open>AIService.summarizeFeedback\<close>

record feedbackItem =
  time_f :: string
  author_f :: string
  text_f :: string

text \<open>
  \<open>%\<close> on numbers truncates towards zero; \<open>padStart(2, '0')\<close> pads on the left.
\<close>

definition js_rem :: "real \<Rightarrow> real \<Rightarrow> real" where
  "js_rem a b = a - b * of_int (if a / b < 0 then \<lceil>a / b\<rceil> else \<lfloor>a / b\<rfloor>)"

definition padStart2 :: "string \<Rightarrow> string" where
  "padStart2 s = replicate (2 - length s) CHR ''0'' @ s"

definition feedbackOf :: "Comment \<Rightarrow> feedbackItem" where
  "feedbackOf c =
     \<lparr> time_f = show_int \<lfloor>timestamp c / 60\<rfloor> @ '':'' @ padStart2 (show_int \<lfloor>js_rem (timestamp c) 60\<rfloor>),
       author_f = authorName c,
       text_f = text_c c \<rparr>"

text \<open>
  The external service is the parameter \<open>generateContent\<close> (model name and prompt to the
  response text, or \<open>None\<close> when the call throws); the rendering of the prompt from the
  title and the feedback data (a template literal around \<open>JSON.stringify\<close>) is the
  parameter \<open>prompt\<close>. The result is the returned string together with the requests
  issued to the service, as (model, prompt) pairs.
\<close>

definition summarizeFeedback ::
  "string \<Rightarrow> (string \<Rightarrow> feedbackItem list \<Rightarrow> string) \<Rightarrow> (string \<Rightarrow> string \<Rightarrow> string option)
     \<Rightarrow> Comment list \<Rightarrow> string \<Rightarrow> string \<times> (string \<times> string) list" where
  "summarizeFeedback AI_API_KEY prompt generateContent cs videoTitle =
     (if AI_API_KEY = [] then (''Configuration Error: API_KEY is missing.'', [])
      else
        (let unresolved = filter (\<lambda>c. \<not> resolved c) cs
         in if length unresolved = 0 then (''All feedback resolved! Good job.'', [])
            else
              (let feedbackData = map feedbackOf unresolved;
                   request = (''gemini-2.5-flash'', prompt videoTitle feedbackData)
               in case generateContent (fst request) (snd request) of
                    Some response_text \<Rightarrow> (response_text, [request])
                  | None \<Rightarrow> (''Could not generate summary. Check API Key.'', [request]))))"

section \<open>Concrete data\<close>

text \<open>The initial content of \<open>MOCK_DB\<close>, with \<open>Date.now()\<close> read as \<open>now\<close>.\<close>

definition proj_1 :: "int \<Rightarrow> Project" where
  "proj_1 now =
     \<lparr> editorId = ''anon_editor'', title = ''Demo Video (Big Buck Bunny)'',
       videoUrl = ''https://commondatastorage.googleapis.com/gtv-videos-bucket/sample/BigBuckBunny.mp4'',
       thumbnailUrl = None, status_p = ready, duration_p = 596,
       id_p = ''proj_1'', publicId = ''review-demo'', createdAt_p = now - 10000000 \<rparr>"

definition c1 :: "int \<Rightarrow> Comment" where
  "c1 now =
     \<lparr> authorId = ''client_guest'', authorName = ''Client A'',
       text_c = ''Can we make the grass greener here?'', timestamp = 52 / 10,
       resolved = False,
       drawingData = Some [\<lparr> color = ''#ef4444'', width = 4,
         points = [\<lparr> x_coord = 2 / 10, y_coord = 4 / 10 \<rparr>,
                   \<lparr> x_coord = 3 / 10, y_coord = 4 / 10 \<rparr>,
                   \<lparr> x_coord = 3 / 10, y_coord = 5 / 10 \<rparr>] \<rparr>],
       id_c = ''c1'', createdAt = now - 50000 \<rparr>"

definition MOCK_DB_init :: "int \<Rightarrow> MOCK_DB" where
  "MOCK_DB_init now =
     \<lparr> projects = [(''proj_1'', proj_1 now)],
       comments = [''proj_1'' \<mapsto> [c1 now]] \<rparr>"

section \<open>Stores built by the program\<close>





section \<open>Predicates and sample data used by the theorems\<close>

text \<open>
  For stating theorems (no read of the program): the array that is an own property of
  \<open>MOCK_DB.comments\<close> under a project id, empty when there is none.
\<close>

definition storedComments :: "MOCK_DB \<Rightarrow> string \<Rightarrow> Comment list" where
  "storedComments d projectId = (case comments d projectId of None \<Rightarrow> [] | Some cs \<Rightarrow> cs)"




text \<open>Drafts that a validating store would reject, and agreement of two comments on every field but \<open>resolved\<close>.\<close>

definition empty_text_draft :: CommentDraft where
  "empty_text_draft =
     \<lparr> authorId = ''guest'', authorName = ''Guest Client'', text_c = '''', timestamp = 12,
       resolved = False, drawingData = None \<rparr>"

definition dot_stroke_draft :: CommentDraft where
  "dot_stroke_draft =
     \<lparr> authorId = ''guest'', authorName = ''Guest Client'', text_c = ''look here'', timestamp = 12,
       resolved = False,
       drawingData = Some [\<lparr> color = ''#ef4444'', width = 4, points = [p_half] \<rparr>] \<rparr>"


definition note_draft :: CommentDraft where
  "note_draft =
     \<lparr> authorId = ''guest'', authorName = ''Guest Client'', text_c = ''tighten this cut'', timestamp = 2,
       resolved = False, drawingData = None \<rparr>"





definition rt0 :: runtime where
  "rt0 = \<lparr> store = MOCK_DB_init 0, timers = Map.empty, nextTimer = 0, delivered = [] \<rparr>"

text \<open>Two subscribers to the comments of the demo project: handles 0 and 1.\<close>

definition rt2 :: runtime where
  "rt2 = sync_run rt0 [SubscribeToComments ''proj_1'', SubscribeToComments ''proj_1'']"

text \<open>A service that is unreachable, and a prompt rendering that keeps the title only.\<close>

definition offline_service :: "string \<Rightarrow> string \<Rightarrow> string option" where
  "offline_service model contents = None"

definition title_prompt :: "string \<Rightarrow> feedbackItem list \<Rightarrow> string" where
  "title_prompt videoTitle feedbackData = videoTitle"

definition after_unsubscribe :: "sync_event list" where
  "after_unsubscribe =
     [Mutate (AddComment ''proj_1'' note_draft 1000 1001), Fire 0, Fire 1, Unsubscribe 0]"

section \<open>Capture gestures\<close>

lemma run_append:
  "run u (xs @ ys) = (let (u1, o1) = run u xs; (u2, o2) = run u1 ys in (u2, o1 @ o2))"
  by (induction xs arbitrary: u) (auto split: prod.splits)

lemma setCurrentPoints_twice [simp]:
  "setCurrentPoints ps (setCurrentPoints qs u) = setCurrentPoints ps u"
  by (simp add: setCurrentPoints_def)

lemma rendered_setCurrentPoints [simp]: "rendered (setCurrentPoints ps u) = rendered u"
  by (simp add: setCurrentPoints_def)

text \<open>A run of movements with no render in between leaves only its last point pending.\<close>

lemma run_moves:
  "isDrawingMode (rendered u) \<Longrightarrow> currentPoints (rendered u) \<noteq> [] \<Longrightarrow>
   run u (moves ms) =
     (case ms of [] \<Rightarrow> u
      | m # ms' \<Rightarrow> setCurrentPoints (currentPoints (rendered u) @ lastPoint ms) u, [])"
proof (induction ms arbitrary: u)
  case Nil
  then show ?case by (simp add: moves_def)
next
  case (Cons m ms)
  obtain e rect where m: "m = (e, rect)" by (cases m)
  let ?u1 = "setCurrentPoints (currentPoints (rendered u) @ [getNormPoint e rect]) u"
  have st: "step u (MouseMove e rect) = (?u1, [])"
    using Cons.prems by (simp add: handleMouseMove_def)
  have ih: "run ?u1 (moves ms) =
      (case ms of [] \<Rightarrow> ?u1
       | m # ms' \<Rightarrow> setCurrentPoints (currentPoints (rendered ?u1) @ lastPoint ms) ?u1, [])"
    using Cons.prems by (intro Cons.IH) simp_all
  show ?case
  proof (cases ms)
    case Nil
    then show ?thesis using st m by (simp add: moves_def lastPoint_def)
  next
    case (Cons m' ms')
    then have "lastPoint (m # ms) = lastPoint ms"
      by (simp add: lastPoint_def)
    then show ?thesis using st ih m Cons by (simp add: moves_def)
  qed
qed

lemma run_moves_inert:
  "\<not> isDrawingMode (rendered u) \<or> currentPoints (rendered u) = [] \<Longrightarrow> run u (moves ms) = (u, [])"
  by (induction ms) (auto simp: moves_def handleMouseMove_def)

lemma render_settled [simp]: "render (settled s) = settled s"
  by (simp add: render_def settled_def)

lemma rendered_settled [simp]: "rendered (settled s) = s"
  by (simp add: settled_def)

lemma pending_settled [simp]: "pending (settled s) = s"
  by (simp add: settled_def)

lemma render_setCurrentPoints_settled [simp]:
  "render (setCurrentPoints ps (settled s)) = settled (s\<lparr>currentPoints := ps\<rparr>)"
  by (simp add: render_def settled_def setCurrentPoints_def)

lemma run_rendered_moves:
  "isDrawingMode s \<Longrightarrow> currentPoints s \<noteq> [] \<Longrightarrow>
   run (settled s) (moves ms @ [Render]) =
     (settled (s\<lparr>currentPoints := currentPoints s @ lastPoint ms\<rparr>), [])"
proof -
  assume a: "isDrawingMode s" "currentPoints s \<noteq> []"
  have same: "s\<lparr>currentPoints := currentPoints s\<rparr> = s"
    by (cases s) simp
  show ?thesis
  proof (cases ms)
    case Nil
    then show ?thesis by (simp add: moves_def lastPoint_def same)
  next
    case (Cons m ms')
    have "run (settled s) (moves ms) =
        (setCurrentPoints (currentPoints s @ lastPoint ms) (settled s), [])"
      using run_moves [of "settled s" ms] a Cons by simp
    then show ?thesis by (simp add: run_append)
  qed
qed

lemma run_rendered_runs:
  "isDrawingMode s \<Longrightarrow> currentPoints s \<noteq> [] \<Longrightarrow>
   run (settled s) (concat (map (\<lambda>ms. moves ms @ [Render]) runs)) =
     (settled (s\<lparr>currentPoints := currentPoints s @ concat (map lastPoint runs)\<rparr>), [])"
proof (induction runs arbitrary: s)
  case Nil
  have "s\<lparr>currentPoints := currentPoints s\<rparr> = s" by (cases s) simp
  then show ?case by simp
next
  case (Cons ms runs)
  let ?s1 = "s\<lparr>currentPoints := currentPoints s @ lastPoint ms\<rparr>"
  have one: "run (settled s) (moves ms @ [Render]) = (settled ?s1, [])"
    using Cons.prems by (rule run_rendered_moves)
  have rest: "run (settled ?s1) (concat (map (\<lambda>ms. moves ms @ [Render]) runs)) =
      (settled (?s1\<lparr>currentPoints := currentPoints ?s1 @ concat (map lastPoint runs)\<rparr>), [])"
    using Cons.prems by (intro Cons.IH) simp_all
  have "concat (map (\<lambda>ms. moves ms @ [Render]) (ms # runs)) =
      (moves ms @ [Render]) @ concat (map (\<lambda>ms. moves ms @ [Render]) runs)"
    by simp
  then show ?case
    using one rest by (simp only: run_append) simp
qed

lemma step_release:
  "fin = MouseUp \<or> fin = MouseLeave \<Longrightarrow> step u fin = handleMouseUp u"
  by auto

lemma kept_singletons: "kept d (map (\<lambda>m. [m]) ms) = captured d ms"
  by (induction ms) (auto simp: kept_def captured_def lastPoint_def case_prod_beta)

text \<open>
  What a gesture emits in general: the point of the press, then the last point of every
  run of movements.
\<close>

lemma gesture_emits_kept_points:
  "fin = MouseUp \<or> fin = MouseLeave \<Longrightarrow> currentPoints s = [] \<Longrightarrow>
   run (settled s) [fin] = (settled s, []) \<and>
   (\<not> isDrawingMode s \<longrightarrow> run (settled s) (gesture d runs fin) = (settled s, [])) \<and>
   (isDrawingMode s \<longrightarrow>
      run (settled s) (gesture d runs fin) =
        (\<lparr> rendered = s\<lparr>currentPoints := kept d runs\<rparr>,
           pending = s\<lparr>currentDrawings := currentDrawings s @
                        [\<lparr> color = ''#ef4444'', width = 4, points = kept d runs \<rparr>]\<rparr> \<rparr>,
         [\<lparr> color = ''#ef4444'', width = 4, points = kept d runs \<rparr>]))"
proof -
  assume fin: "fin = MouseUp \<or> fin = MouseLeave" and idle: "currentPoints s = []"
  have rel: "\<And>t. step t fin = handleMouseUp t"
    using fin by (rule step_release)
  have none: "run (settled s) [fin] = (settled s, [])"
    using idle by (simp add: rel handleMouseUp_def)
  have off: "run (settled s) (gesture d runs fin) = (settled s, [])" if "\<not> isDrawingMode s"
  proof -
    have "run (settled s) [MouseDown (fst d) (snd d), Render] = (settled s, [])"
      using that by (simp add: handleMouseDown_def)
    moreover have "run (settled s) (concat (map (\<lambda>ms. moves ms @ [Render]) runs)) = (settled s, [])"
    proof (induction runs)
      case Nil
      then show ?case by simp
    next
      case (Cons ms runs)
      have "run (settled s) (moves ms) = (settled s, [])"
        using that by (simp add: run_moves_inert)
      then show ?case using Cons by (simp add: run_append)
    qed
    ultimately show ?thesis
      using none by (simp only: gesture_def run_append) simp
  qed
  have on: "run (settled s) (gesture d runs fin) =
        (\<lparr> rendered = s\<lparr>currentPoints := kept d runs\<rparr>,
           pending = s\<lparr>currentDrawings := currentDrawings s @
                        [\<lparr> color = ''#ef4444'', width = 4, points = kept d runs \<rparr>]\<rparr> \<rparr>,
         [\<lparr> color = ''#ef4444'', width = 4, points = kept d runs \<rparr>])" if "isDrawingMode s"
  proof -
    note drawing = that
    let ?s1 = "s\<lparr>currentPoints := [getNormPoint (fst d) (snd d)]\<rparr>"
    let ?s2 = "s\<lparr>currentPoints := kept d runs\<rparr>"
    have down: "run (settled s) [MouseDown (fst d) (snd d), Render] = (settled ?s1, [])"
      using drawing by (simp add: handleMouseDown_def)
    have "run (settled ?s1) (concat (map (\<lambda>ms. moves ms @ [Render]) runs)) =
        (settled (?s1\<lparr>currentPoints := currentPoints ?s1 @ concat (map lastPoint runs)\<rparr>), [])"
      using drawing by (intro run_rendered_runs) simp_all
    then have mv: "run (settled ?s1) (concat (map (\<lambda>ms. moves ms @ [Render]) runs)) = (settled ?s2, [])"
      by (simp add: kept_def)
    have up: "run (settled ?s2) [fin] =
        (\<lparr> rendered = ?s2,
           pending = s\<lparr>currentDrawings := currentDrawings s @
                        [\<lparr> color = ''#ef4444'', width = 4, points = kept d runs \<rparr>]\<rparr> \<rparr>,
         [\<lparr> color = ''#ef4444'', width = 4, points = kept d runs \<rparr>])"
    proof -
      have ne: "kept d runs \<noteq> []" by (simp add: kept_def)
      have restore: "s\<lparr>currentPoints := kept d runs, currentDrawings := ds, currentPoints := []\<rparr>
          = s\<lparr>currentDrawings := ds\<rparr>" for ds
        using idle by (cases s) simp
      show ?thesis
        using drawing ne
        by (simp add: rel handleMouseUp_def onDrawEnd_def Let_def settled_def
            setCurrentPoints_def setCurrentDrawings_def restore)
    qed
    show ?thesis
      using down mv up by (simp only: gesture_def run_append) simp
  qed
  show ?thesis using none off on by blast
qed

lemma rendered_gesture_runs: "rendered_gesture d ms fin = gesture d (map (\<lambda>m. [m]) ms) fin"
proof -
  have "concat (map (\<lambda>(e, rect). [MouseMove e rect, Render]) ms) =
      concat (map (\<lambda>ms. moves ms @ [Render]) (map (\<lambda>m. [m]) ms))"
    by (induction ms) (auto simp: moves_def)
  then show ?thesis by (simp add: rendered_gesture_def gesture_def)
qed

text \<open>
  Claim C1, as the code has it, for gestures in which a render comes between every two
  events. The engine is idle and rendered (\<open>settled s\<close> with no current point). A
  release (or leave) then emits nothing and changes nothing, and so does a whole gesture
  made while drawing mode is off. A gesture made while drawing mode is on emits exactly
  one stroke, whose points are the captured points in capture order; the stroke is
  appended to \<open>currentDrawings\<close>, and the engine is idle again after the next render.
  The stroke is emitted also when it holds the point of the press only: the threshold is
  one point, not two.
\<close>

theorem gesture_yields_captured_stroke:
  "fin = MouseUp \<or> fin = MouseLeave \<Longrightarrow> currentPoints s = [] \<Longrightarrow>
   run (settled s) [fin] = (settled s, []) \<and>
   (\<not> isDrawingMode s \<longrightarrow> run (settled s) (rendered_gesture d ms fin) = (settled s, [])) \<and>
   (isDrawingMode s \<longrightarrow>
      run (settled s) (rendered_gesture d ms fin) =
        (\<lparr> rendered = s\<lparr>currentPoints := captured d ms\<rparr>,
           pending = s\<lparr>currentDrawings := currentDrawings s @
                        [\<lparr> color = ''#ef4444'', width = 4, points = captured d ms \<rparr>]\<rparr> \<rparr>,
         [\<lparr> color = ''#ef4444'', width = 4, points = captured d ms \<rparr>]))"
  using gesture_emits_kept_points [of fin s d "map (\<lambda>m. [m]) ms"]
  by (simp add: rendered_gesture_runs kept_singletons)

text \<open>A bare release; and a press and two movements, with a render after each.\<close>

theorem gesture_yields_captured_stroke_witness:
  "emitted (settled idle_on) [MouseUp] = [] \<and>
   emitted (settled idle_on) (rendered_gesture (ev0, rect0) [(ev2, rect0), (ev1, rect0)] MouseLeave) =
     [\<lparr> color = ''#ef4444'', width = 4,
        points = [\<lparr> x_coord = 1 / 2, y_coord = 1 / 2 \<rparr>, \<lparr> x_coord = 3 / 5, y_coord = 3 / 5 \<rparr>,
                  \<lparr> x_coord = 7 / 10, y_coord = 7 / 10 \<rparr>] \<rparr>]"
proof -
  have idle: "currentPoints idle_on = []" and drawing: "isDrawingMode idle_on"
    by (simp_all add: idle_on_def)
  have a: "emitted (settled idle_on) [MouseUp] = []"
    using gesture_yields_captured_stroke [of MouseUp idle_on] idle
    by (simp add: emitted_def)
  have b: "emitted (settled idle_on) (rendered_gesture (ev0, rect0) [(ev2, rect0), (ev1, rect0)] MouseLeave) =
      [\<lparr> color = ''#ef4444'', width = 4, points = captured (ev0, rect0) [(ev2, rect0), (ev1, rect0)] \<rparr>]"
    using gesture_yields_captured_stroke [of MouseLeave idle_on "(ev0, rect0)" "[(ev2, rect0), (ev1, rect0)]"]
      idle drawing
    by (simp add: emitted_def)
  have k: "captured (ev0, rect0) [(ev2, rect0), (ev1, rect0)] =
      [\<lparr> x_coord = 1 / 2, y_coord = 1 / 2 \<rparr>, \<lparr> x_coord = 3 / 5, y_coord = 3 / 5 \<rparr>,
       \<lparr> x_coord = 7 / 10, y_coord = 7 / 10 \<rparr>]"
    by (simp add: captured_def getNormPoint_def ev0_def ev1_def ev2_def rect0_def)
  show ?thesis using a b k by simp
qed

text \<open>
  The same press and movements with no render between the two movements: the point of
  the first movement is overwritten.
\<close>

lemma unrendered_movement_overwritten:
  "emitted (settled idle_on) (gesture (ev0, rect0) [[(ev2, rect0), (ev1, rect0)]] MouseUp) =
     [\<lparr> color = ''#ef4444'', width = 4,
        points = [\<lparr> x_coord = 1 / 2, y_coord = 1 / 2 \<rparr>, \<lparr> x_coord = 7 / 10, y_coord = 7 / 10 \<rparr>] \<rparr>]"
proof -
  have idle: "currentPoints idle_on = []" and drawing: "isDrawingMode idle_on"
    by (simp_all add: idle_on_def)
  have "emitted (settled idle_on) (gesture (ev0, rect0) [[(ev2, rect0), (ev1, rect0)]] MouseUp) =
      [\<lparr> color = ''#ef4444'', width = 4, points = kept (ev0, rect0) [[(ev2, rect0), (ev1, rect0)]] \<rparr>]"
    using gesture_emits_kept_points [of MouseUp idle_on "(ev0, rect0)" "[[(ev2, rect0), (ev1, rect0)]]"]
      idle drawing
    by (simp add: emitted_def)
  moreover have "kept (ev0, rect0) [[(ev2, rect0), (ev1, rect0)]] =
      [\<lparr> x_coord = 1 / 2, y_coord = 1 / 2 \<rparr>, \<lparr> x_coord = 7 / 10, y_coord = 7 / 10 \<rparr>]"
    by (simp add: kept_def lastPoint_def getNormPoint_def ev0_def ev1_def ev2_def rect0_def)
  ultimately show ?thesis by simp
qed

text \<open>
  Claim C1 as stated fails: a single click (press, render, release; no movement)
  captures one point, and that one-point stroke is emitted.
\<close>

theorem single_click_counterexample:
  "length (captured (ev0, rect0) []) = 1 \<and>
   rendered_gesture (ev0, rect0) [] MouseUp = [MouseDown ev0 rect0, Render, MouseUp] \<and>
   emitted (settled idle_on) (rendered_gesture (ev0, rect0) [] MouseUp) =
     [\<lparr> color = ''#ef4444'', width = 4, points = [\<lparr> x_coord = 1 / 2, y_coord = 1 / 2 \<rparr>] \<rparr>]"
  by (simp add: captured_def emitted_def rendered_gesture_def idle_on_def handleMouseDown_def
      handleMouseUp_def onDrawEnd_def getNormPoint_def ev0_def rect0_def Let_def
      settled_def render_def setCurrentPoints_def setCurrentDrawings_def)

text \<open>
  While the rendered drawing mode is off the capture surface is inert: until "Draw" is
  clicked or a pending update is rendered, no event changes the state or emits a stroke.
  Closing drawing mode and opening it again leaves \<open>currentPoints\<close> as it was.
\<close>

lemma disabled_step_inert:
  "\<not> isDrawingMode (rendered u) \<Longrightarrow> ev \<noteq> ClickDraw \<Longrightarrow> ev \<noteq> Render \<Longrightarrow> step u ev = (u, [])"
  by (cases ev) (simp_all add: handleMouseDown_def handleMouseMove_def handleMouseUp_def)

lemma disabled_run_inert:
  "\<not> isDrawingMode (rendered u) \<Longrightarrow> ClickDraw \<notin> set evs \<Longrightarrow> Render \<notin> set evs \<Longrightarrow>
   run u evs = (u, [])"
  by (induction evs) (auto simp: disabled_step_inert)

lemma closing_keeps_points:
  "isDrawingMode s \<Longrightarrow>
   emitted (settled s) [ClickCloseDrawing, Render, ClickDraw, Render] = [] \<and>
   currentPoints (rendered (fst (run (settled s) [ClickCloseDrawing, Render, ClickDraw, Render])))
     = currentPoints s"
  by (simp add: emitted_def settled_def render_def setIsDrawingMode_def setCurrentDrawings_def)

text \<open>
  Claim C6 on the code, with a render after every event: a press and a movement capture
  two points; drawing mode is then closed and opened again; the next release emits a
  stroke made of the two points captured before drawing mode was closed, and stores it
  in \<open>currentDrawings\<close>.
\<close>

theorem stale_points_emitted_after_reenabling:
  "run (settled idle_on)
     [MouseDown ev0 rect0, Render, MouseMove ev1 rect0, Render,
      ClickCloseDrawing, Render, ClickDraw, Render, MouseUp] =
     (\<lparr> rendered = idle_on\<lparr>currentPoints :=
          [\<lparr> x_coord = 1 / 2, y_coord = 1 / 2 \<rparr>, \<lparr> x_coord = 7 / 10, y_coord = 7 / 10 \<rparr>]\<rparr>,
        pending = idle_on\<lparr>currentDrawings := [\<lparr> color = ''#ef4444'', width = 4,
          points = [\<lparr> x_coord = 1 / 2, y_coord = 1 / 2 \<rparr>, \<lparr> x_coord = 7 / 10, y_coord = 7 / 10 \<rparr>] \<rparr>]\<rparr> \<rparr>,
      [\<lparr> color = ''#ef4444'', width = 4,
        points = [\<lparr> x_coord = 1 / 2, y_coord = 1 / 2 \<rparr>, \<lparr> x_coord = 7 / 10, y_coord = 7 / 10 \<rparr>] \<rparr>])"
  by (simp add: idle_on_def handleMouseDown_def handleMouseMove_def
      handleMouseUp_def onDrawEnd_def getNormPoint_def ev0_def ev1_def rect0_def Let_def
      settled_def render_def setCurrentPoints_def setCurrentDrawings_def setIsDrawingMode_def)

section \<open>Normalization round trip\<close>

lemma shifted_quotient:
  "0 < w \<Longrightarrow> ((a * w - l) / w = a \<longleftrightarrow> l = 0)" for a w l :: real
  by (simp add: field_simps)

text \<open>
  Claim C7, as the code has it. \<open>drawStroke\<close> scales a point to canvas pixels, which are
  relative to the canvas; \<open>getNormPoint\<close> reads client coordinates and subtracts the
  origin of the bounding rectangle. For a rectangle of positive width and height, the
  point under the pointer placed on the canvas pixel of \<open>p\<close> normalizes back to \<open>p\<close>
  (exactly, in real arithmetic); the canvas pixel itself, taken as client coordinates,
  normalizes back to \<open>p\<close> exactly when the rectangle starts at the client origin.
\<close>

theorem normalize_denormalize_roundtrip:
  "0 < rect_width r \<Longrightarrow> 0 < rect_height r \<Longrightarrow>
   getNormPoint (mouseAt r (canvasPoint (rect_width r) (rect_height r) p)) r = p \<and>
   (getNormPoint \<lparr> clientX = fst (canvasPoint (rect_width r) (rect_height r) p),
                    clientY = snd (canvasPoint (rect_width r) (rect_height r) p) \<rparr> r = p
      \<longleftrightarrow> rect_left r = 0 \<and> rect_top r = 0)"
proof -
  assume w: "0 < rect_width r" and h: "0 < rect_height r"
  obtain a b where p: "p = \<lparr> x_coord = a, y_coord = b \<rparr>" by (cases p) simp
  have placed: "getNormPoint (mouseAt r (canvasPoint (rect_width r) (rect_height r) p)) r = p"
    using w h p by (simp add: getNormPoint_def mouseAt_def canvasPoint_def)
  have direct: "getNormPoint \<lparr> clientX = fst (canvasPoint (rect_width r) (rect_height r) p),
                    clientY = snd (canvasPoint (rect_width r) (rect_height r) p) \<rparr> r = p
      \<longleftrightarrow> rect_left r = 0 \<and> rect_top r = 0"
    using shifted_quotient [OF w, of a "rect_left r"] shifted_quotient [OF h, of b "rect_top r"] p
    by (simp add: getNormPoint_def canvasPoint_def)
  show ?thesis using placed direct by blast
qed

text \<open>A canvas of 100 by 100 at client position (10, 0), and the centre point.\<close>

theorem normalize_denormalize_roundtrip_witness:
  "0 < rect_width rect0 \<and> 0 < rect_height rect0 \<and>
   getNormPoint \<lparr> clientX = 60, clientY = 50 \<rparr> rect0 = p_half \<and>
   getNormPoint \<lparr> clientX = 50, clientY = 50 \<rparr> rect0 \<noteq> p_half"
proof -
  have h: "0 < rect_width rect0" "0 < rect_height rect0"
    by (simp_all add: rect0_def)
  have m: "mouseAt rect0 (canvasPoint (rect_width rect0) (rect_height rect0) p_half)
      = \<lparr> clientX = 60, clientY = 50 \<rparr>"
    "\<lparr> clientX = fst (canvasPoint (rect_width rect0) (rect_height rect0) p_half),
       clientY = snd (canvasPoint (rect_width rect0) (rect_height rect0) p_half) \<rparr>
      = \<lparr> clientX = 50, clientY = 50 \<rparr>"
    by (simp_all add: mouseAt_def canvasPoint_def rect0_def p_half_def)
  have o: "\<not> (rect_left rect0 = 0 \<and> rect_top rect0 = 0)"
    by (simp add: rect0_def)
  show ?thesis
    using h m o normalize_denormalize_roundtrip [OF h, of p_half] by simp
qed

text \<open>
  Claim C7 as stated fails when the rectangle does not start at the client origin:
  feeding the canvas pixel (50, 50) of the centre point to \<open>getNormPoint\<close> unchanged
  gives \<open>x = 0.4\<close>, not \<open>0.5\<close>.
\<close>

theorem roundtrip_offset_counterexample:
  "rect_width rect0 = 100 \<and> rect_height rect0 = 100 \<and>
   canvasPoint 100 100 p_half = (50, 50) \<and>
   getNormPoint \<lparr> clientX = 50, clientY = 50 \<rparr> rect0 = \<lparr> x_coord = 2 / 5, y_coord = 1 / 2 \<rparr> \<and>
   p_half = \<lparr> x_coord = 1 / 2, y_coord = 1 / 2 \<rparr>"
  by (simp add: getNormPoint_def canvasPoint_def rect0_def p_half_def)

section \<open>Marker positions\<close>

lemma marker_scaled:
  "0 < den \<Longrightarrow> (0 \<le> t / den * 100 \<longleftrightarrow> 0 \<le> t) \<and> (t / den * 100 \<le> 100 \<longleftrightarrow> t \<le> den)"
  for t den :: real
  by (simp add: field_simps zero_le_divide_iff)

text \<open>
  Claim C2, as the code has it. The marker position is \<open>markerLeft / 100\<close>: the
  timestamp divided by the denominator. The denominator is never zero: a duration of
  zero is replaced by one, so the position is then the timestamp itself. There is no clamp: for a duration that is not negative, the
  position lies in \<open>[0, 1]\<close> (the percentage in \<open>[0, 100]\<close>) exactly when the timestamp
  lies between zero and the denominator; a negative timestamp gives a negative position,
  and a timestamp above the denominator a position above one.
\<close>

theorem marker_denominator_and_range:
  "denominator duration \<noteq> 0 \<and>
   markerLeft c duration * denominator duration = timestamp c * 100 \<and>
   markerLeft c 0 = timestamp c * 100 \<and>
   (0 \<le> duration \<longrightarrow>
      ((0 \<le> markerLeft c duration \<and> markerLeft c duration \<le> 100) \<longleftrightarrow>
       (0 \<le> timestamp c \<and> timestamp c \<le> denominator duration)) \<and>
      (timestamp c < 0 \<longrightarrow> markerLeft c duration < 0) \<and>
      (denominator duration < timestamp c \<longrightarrow> 100 < markerLeft c duration))"
proof -
  have d: "denominator duration \<noteq> 0"
    by (simp add: denominator_def)
  have q: "markerLeft c duration * denominator duration = timestamp c * 100"
    using d by (simp add: markerLeft_def)
  have z: "markerLeft c 0 = timestamp c * 100"
    by (simp add: markerLeft_def denominator_def)
  have r: "((0 \<le> markerLeft c duration \<and> markerLeft c duration \<le> 100) \<longleftrightarrow>
       (0 \<le> timestamp c \<and> timestamp c \<le> denominator duration)) \<and>
      (timestamp c < 0 \<longrightarrow> markerLeft c duration < 0) \<and>
      (denominator duration < timestamp c \<longrightarrow> 100 < markerLeft c duration)"
    if "0 \<le> duration"
  proof -
    have pos: "0 < denominator duration"
      using that by (simp add: denominator_def)
    from marker_scaled [OF pos, of "timestamp c"]
    show ?thesis unfolding markerLeft_def by (auto simp: not_le [symmetric])
  qed
  show ?thesis using d q z r by blast
qed

text \<open>
  The scenario of the demo project (timestamp 5.2 of 596 seconds), and a duration of
  zero with the timestamps 0.5 and 2.
\<close>

theorem marker_denominator_and_range_witness:
  "markerLeft (c1 0) 596 = 130 / 149 \<and> 0 \<le> markerLeft (c1 0) 596 \<and> markerLeft (c1 0) 596 \<le> 100 \<and>
   markerLeft ((c1 0)\<lparr>timestamp := 1 / 2\<rparr>) 0 = 50 \<and>
   markerLeft ((c1 0)\<lparr>timestamp := 2\<rparr>) 0 > 100"
proof -
  have h: "(0::real) \<le> 596" "(0::real) \<le> 0" by simp_all
  have "0 \<le> timestamp (c1 0) \<and> timestamp (c1 0) \<le> denominator 596"
    by (simp add: c1_def denominator_def)
  then have a: "0 \<le> markerLeft (c1 0) 596 \<and> markerLeft (c1 0) 596 \<le> 100"
    using marker_denominator_and_range [of 596 "c1 0"] h(1) by blast
  have b: "markerLeft (c1 0) 596 = 130 / 149"
    by (simp add: markerLeft_def denominator_def c1_def)
  have "markerLeft ((c1 0)\<lparr>timestamp := 1 / 2\<rparr>) 0 = timestamp ((c1 0)\<lparr>timestamp := 1 / 2\<rparr>) * 100"
    using marker_denominator_and_range [of 0 "(c1 0)\<lparr>timestamp := 1 / 2\<rparr>"] by blast
  then have c: "markerLeft ((c1 0)\<lparr>timestamp := 1 / 2\<rparr>) 0 = 50"
    by simp
  have "denominator 0 < timestamp ((c1 0)\<lparr>timestamp := 2\<rparr>)"
    by (simp add: denominator_def)
  then have e: "100 < markerLeft ((c1 0)\<lparr>timestamp := 2\<rparr>) 0"
    using marker_denominator_and_range [of 0 "(c1 0)\<lparr>timestamp := 2\<rparr>"] h(2) by blast
  show ?thesis using a b c e by simp
qed

text \<open>
  Claim C2 as stated fails: a negative timestamp gives a negative position, a timestamp
  beyond the duration a position above one.
\<close>

theorem marker_unclamped_counterexample:
  "markerLeft ((c1 0)\<lparr>timestamp := - 149\<rparr>) 596 = - 25 \<and>
   markerLeft ((c1 0)\<lparr>timestamp := 745\<rparr>) 596 = 125"
  by (simp add: markerLeft_def denominator_def c1_def)

section \<open>Ordering of the delivered comments\<close>







lemma loadComments_fails:
  "readComments d projectId = Inherited \<Longrightarrow> loadComments projectId d = Inl TypeError"
  by (simp add: loadComments_def)



lemma sorted_snoc_stamp:
  "sorted (map createdAt cs) \<Longrightarrow> \<forall>c \<in> set cs. createdAt c \<le> t \<Longrightarrow> createdAt a = t \<Longrightarrow>
   sorted (map createdAt (cs @ [a]))"
  by (simp add: sorted_append)
















section \<open>Store operations\<close>

lemma findIndexFrom_none:
  "0 \<le> i \<Longrightarrow> findIndexFrom i P as = - 1 \<longleftrightarrow> (\<forall>a \<in> set as. \<not> P a)"
  by (induction as arbitrary: i) auto


lemma findIndex_none: "findIndex P as = - 1 \<longleftrightarrow> (\<forall>a \<in> set as. \<not> P a)"
  by (simp add: findIndex_def findIndexFrom_none)





lemma readComments_cases:
  "readComments d projectId = Inherited \<longleftrightarrow>
     comments d projectId = None \<and> projectId \<in> set objectPrototypeKeys"
  "readComments d projectId = Undefined \<longleftrightarrow>
     comments d projectId = None \<and> projectId \<notin> set objectPrototypeKeys"
  "readComments d projectId = Array cs \<longleftrightarrow> comments d projectId = Some cs"
  by (auto simp: readComments_def split: option.splits)

text \<open>
  A project id that reads an unshadowed property of \<open>Object.prototype\<close> makes both
  operations throw a \<open>TypeError\<close>, with the store unchanged.
\<close>

lemma inherited_key_throws:
  "readComments d projectId = Inherited \<Longrightarrow>
   addComment projectId comment idNow createdNow d = Inl TypeError \<and>
   apply_op d (AddComment projectId comment idNow createdNow) = d \<and>
   resolveComment projectId commentId r d = Inl TypeError \<and>
   apply_op d (ResolveComment projectId commentId r) = d"
  by (simp add: addComment_def resolveComment_def Let_def)

lemma inherited_key_examples:
  "readComments (MOCK_DB_init 0) ''constructor'' = Inherited"
  "readComments (MOCK_DB_init 0) ''__proto__'' = Inherited"
  "readComments (MOCK_DB_init 0) ''proj_1'' \<noteq> Inherited"
  "readComments (MOCK_DB_init 0) ''proj_9'' \<noteq> Inherited"
  by (simp_all add: readComments_def MOCK_DB_init_def objectPrototypeKeys_def)

text \<open>
  Claim C4, as the code has it. \<open>addComment\<close> validates nothing and never fails with
  \<open>ValidationError\<close>. For every draft and every project id that does not read an
  unshadowed property of \<open>Object.prototype\<close>, it returns the new comment, which carries
  the assigned \<open>id\<close> and \<open>createdAt\<close> and the draft's fields, and appends it to the
  collection of the project; the other collections and the projects are unchanged.
\<close>

theorem addComment_always_appends:
  "addComment projectId comment idNow createdNow d \<noteq> Inl ValidationError \<and>
   (readComments d projectId \<noteq> Inherited \<longrightarrow>
      (\<exists>c d'. addComment projectId comment idNow createdNow d = Inr (c, d') \<and>
         id_c c = ''c_'' @ show_int idNow \<and> createdAt c = createdNow \<and>
         authorId c = authorId comment \<and> authorName c = authorName comment \<and>
         text_c c = text_c comment \<and> timestamp c = timestamp comment \<and>
         resolved c = resolved comment \<and> drawingData c = drawingData comment \<and>
         comments d' projectId = Some (storedComments d projectId @ [c]) \<and>
         (\<forall>p. p \<noteq> projectId \<longrightarrow> comments d' p = comments d p) \<and>
         projects d' = projects d))"
proof (cases "readComments d projectId")
  case Undefined
  then have "comments d projectId = None" by (simp add: readComments_cases)
  then show ?thesis
    using Undefined
    by (simp add: addComment_def Let_def storedComments_def CommentDraft.defs Comment.defs)
next
  case (Array cs)
  then have "comments d projectId = Some cs" by (simp add: readComments_cases)
  then show ?thesis
    using Array
    by (simp add: addComment_def Let_def storedComments_def CommentDraft.defs Comment.defs)
next
  case Inherited
  then show ?thesis by (simp add: addComment_def Let_def)
qed

text \<open>Adding to the demo project.\<close>

theorem addComment_always_appends_witness:
  "comments (snd (projr (addComment ''proj_1'' dot_stroke_draft 1000 1001 (MOCK_DB_init 0)))) ''proj_1''
     = Some [c1 0, fst (projr (addComment ''proj_1'' dot_stroke_draft 1000 1001 (MOCK_DB_init 0)))] \<and>
   comments (snd (projr (addComment ''proj_1'' dot_stroke_draft 1000 1001 (MOCK_DB_init 0)))) ''proj_2''
     = None"
proof -
  from addComment_always_appends
    [of "''proj_1''" dot_stroke_draft 1000 1001 "MOCK_DB_init 0", THEN conjunct2, THEN mp,
     OF inherited_key_examples(3)]
  obtain c d' where r: "addComment ''proj_1'' dot_stroke_draft 1000 1001 (MOCK_DB_init 0) = Inr (c, d')"
    and app: "comments d' ''proj_1'' = Some (storedComments (MOCK_DB_init 0) ''proj_1'' @ [c])"
    and others: "\<forall>p. p \<noteq> ''proj_1'' \<longrightarrow> comments d' p = comments (MOCK_DB_init 0) p"
    by (elim exE conjE)
  have old: "storedComments (MOCK_DB_init 0) ''proj_1'' = [c1 0]"
    by (simp add: storedComments_def MOCK_DB_init_def)
  have none: "comments (MOCK_DB_init 0) ''proj_2'' = None"
    by (simp add: MOCK_DB_init_def)
  have "''proj_2'' \<noteq> ''proj_1''" by simp
  with others none have a: "comments d' ''proj_2'' = None" by simp
  have b: "comments d' ''proj_1'' = Some [c1 0, c]"
    using app old by simp
  show ?thesis
    using a b by (simp add: r)
qed

text \<open>
  Claim C4 as stated fails: a draft with empty text, and a draft whose drawing holds a
  one-point stroke, are both stored, and neither call fails.
\<close>

theorem addComment_no_validation_counterexample:
  "text_c empty_text_draft = '''' \<and>
   addComment ''proj_1'' empty_text_draft 1000 1001 (MOCK_DB_init 0) \<noteq> Inl ValidationError \<and>
   length (storedComments (MOCK_DB_init 0) ''proj_1'') = 1 \<and>
   length (storedComments (snd (projr (addComment ''proj_1'' empty_text_draft 1000 1001 (MOCK_DB_init 0)))) ''proj_1'') = 2 \<and>
   map (length \<circ> points) (the (drawingData dot_stroke_draft)) = [1] \<and>
   addComment ''proj_1'' dot_stroke_draft 1000 1001 (MOCK_DB_init 0) \<noteq> Inl ValidationError \<and>
   length (storedComments (snd (projr (addComment ''proj_1'' dot_stroke_draft 1000 1001 (MOCK_DB_init 0)))) ''proj_1'') = 2"
  by (simp add: addComment_def readComments_def Let_def storedComments_def MOCK_DB_init_def
      empty_text_draft_def dot_stroke_draft_def)

text \<open>
  Claim C5, as the code has it. When no comment of that id is stored under the project,
  \<open>resolveComment\<close> changes nothing and never fails with \<open>NotFoundError\<close>; for every
  project id that does not read an unshadowed property of \<open>Object.prototype\<close> (also
  one that has no collection) it completes normally and returns the store unchanged.
\<close>

theorem resolveComment_missing_is_noop:
  "(\<forall>c \<in> set (storedComments d projectId). id_c c \<noteq> commentId) \<Longrightarrow>
   resolveComment projectId commentId r d \<noteq> Inl NotFoundError \<and>
   apply_op d (ResolveComment projectId commentId r) = d \<and>
   (readComments d projectId \<noteq> Inherited \<longrightarrow> resolveComment projectId commentId r d = Inr d)"
proof (cases "readComments d projectId")
  case Undefined
  then show ?thesis by (simp add: resolveComment_def)
next
  case Inherited
  then show ?thesis by (simp add: resolveComment_def)
next
  case (Array cs)
  assume "\<forall>c \<in> set (storedComments d projectId). id_c c \<noteq> commentId"
  moreover have "storedComments d projectId = cs"
    using Array by (simp add: readComments_cases storedComments_def)
  ultimately have "findIndex (\<lambda>c. id_c c = commentId) cs = - 1"
    by (simp add: findIndex_none)
  then show ?thesis
    using Array by (simp add: resolveComment_def)
qed

text \<open>An unknown comment id, and an unknown project id.\<close>

theorem resolveComment_missing_is_noop_witness:
  "resolveComment ''proj_1'' ''c2'' True (MOCK_DB_init 0) = Inr (MOCK_DB_init 0) \<and>
   resolveComment ''proj_9'' ''c1'' True (MOCK_DB_init 0) = Inr (MOCK_DB_init 0)"
proof -
  have none: "\<forall>c \<in> set (storedComments (MOCK_DB_init 0) ''proj_1''). id_c c \<noteq> ''c2''"
    "\<forall>c \<in> set (storedComments (MOCK_DB_init 0) ''proj_9''). id_c c \<noteq> ''c1''"
    by (simp_all add: storedComments_def MOCK_DB_init_def c1_def)
  show ?thesis
    using resolveComment_missing_is_noop [OF none(1), of True]
      resolveComment_missing_is_noop [OF none(2), of True] inherited_key_examples(3,4)
    by blast
qed

text \<open>
  Claim C5 as stated fails: resolving a comment id that is not stored does not fail
  with \<open>NotFoundError\<close>.
\<close>

theorem resolveComment_no_error_counterexample:
  "map id_c (storedComments (MOCK_DB_init 0) ''proj_1'') = [''c1''] \<and>
   resolveComment ''proj_1'' ''c2'' True (MOCK_DB_init 0) = Inr (MOCK_DB_init 0) \<and>
   resolveComment ''proj_1'' ''c2'' True (MOCK_DB_init 0) \<noteq> Inl NotFoundError"
  by (simp add: resolveComment_def readComments_def storedComments_def MOCK_DB_init_def c1_def
      findIndex_def)







section \<open>Subscriptions\<close>

lemma nextTimer_step: "nextTimer rt \<le> nextTimer (sync_step rt ev)"
  by (cases ev)
    (simp_all add: fire_def callback_def unsubscribe_def clearInterval_def subscribeToProjects_def
      subscribeToComments_def setInterval_def load_def
      split: option.splits prod.splits sum.splits)

lemma cleared_step:
  assumes "h < nextTimer rt" and "timers rt h = None"
  shows "timers (sync_step rt ev) h = None \<and> invocations h (sync_step rt ev) = invocations h rt"
proof (cases ev)
  case (Fire k)
  then show ?thesis
    using assms
    by (auto simp: fire_def callback_def invocations_def split: option.splits sum.splits)
next
  case (Unsubscribe k)
  then show ?thesis
    using assms by (simp add: unsubscribe_def clearInterval_def invocations_def)
next
  case (SubscribeToProjects userId)
  then show ?thesis
    using assms
    by (simp add: subscribeToProjects_def setInterval_def callback_def invocations_def load_def)
next
  case (SubscribeToComments projectId)
  then show ?thesis
    using assms
    by (simp add: subscribeToComments_def setInterval_def callback_def invocations_def
        split: sum.splits)
next
  case (Mutate op)
  then show ?thesis
    using assms by (simp add: invocations_def)
qed

lemma cleared_run:
  "h < nextTimer rt \<Longrightarrow> timers rt h = None \<Longrightarrow>
   timers (sync_run rt evs) h = None \<and> invocations h (sync_run rt evs) = invocations h rt"
proof (induction evs arbitrary: rt)
  case Nil
  then show ?case by (simp add: sync_run_def)
next
  case (Cons ev evs)
  have a: "timers (sync_step rt ev) h = None" "invocations h (sync_step rt ev) = invocations h rt"
    using cleared_step [OF Cons.prems] by simp_all
  have b: "h < nextTimer (sync_step rt ev)"
    using Cons.prems(1) nextTimer_step [of rt ev] by simp
  have "sync_run rt (ev # evs) = sync_run (sync_step rt ev) evs"
    by (simp add: sync_run_def)
  then show ?case
    using Cons.IH [OF b a(1)] a(2) by simp
qed

lemma registered_step:
  assumes "k < nextTimer rt" and "timers rt k = Some x" and "ev \<noteq> Unsubscribe k"
  shows "timers (sync_step rt ev) k = Some x"
proof (cases ev)
  case (Fire j)
  then show ?thesis
    using assms by (auto simp: fire_def callback_def split: option.splits sum.splits)
next
  case (Unsubscribe j)
  then show ?thesis
    using assms by (simp add: unsubscribe_def clearInterval_def)
next
  case (SubscribeToProjects userId)
  then show ?thesis
    using assms by (simp add: subscribeToProjects_def setInterval_def callback_def load_def)
next
  case (SubscribeToComments projectId)
  then show ?thesis
    using assms
    by (simp add: subscribeToComments_def setInterval_def callback_def split: sum.splits)
next
  case (Mutate op)
  then show ?thesis
    using assms by simp
qed

lemma registered_run:
  "k < nextTimer rt \<Longrightarrow> timers rt k = Some x \<Longrightarrow> Unsubscribe k \<notin> set evs \<Longrightarrow>
   timers (sync_run rt evs) k = Some x"
proof (induction evs arbitrary: rt)
  case Nil
  then show ?case by (simp add: sync_run_def)
next
  case (Cons ev evs)
  have a: "timers (sync_step rt ev) k = Some x"
    using Cons.prems by (intro registered_step) auto
  have b: "k < nextTimer (sync_step rt ev)"
    using Cons.prems(1) nextTimer_step [of rt ev] by simp
  have "sync_run rt (ev # evs) = sync_run (sync_step rt ev) evs"
    by (simp add: sync_run_def)
  then show ?case
    using Cons.IH [OF b a] Cons.prems(3) by simp
qed

text \<open>A loader that works keeps working: no operation removes a collection.\<close>

lemma stored_apply_op:
  "comments d projectId \<noteq> None \<Longrightarrow> comments (apply_op d op) projectId \<noteq> None"
  by (cases op)
    (auto simp: createProject_def addComment_def resolveComment_def Let_def
      split: slot.splits if_splits)

lemma load_works_iff:
  "(\<exists>v. load l d = Inr v) \<longleftrightarrow>
   (case l of LoadProjects userId \<Rightarrow> True
    | LoadComments projectId \<Rightarrow> comments d projectId \<noteq> None \<or> projectId \<notin> set objectPrototypeKeys)"
  by (auto simp: load_def loadComments_def readComments_def split: loader.splits option.splits)

lemma load_works_apply_op:
  "\<exists>v. load l d = Inr v \<Longrightarrow> \<exists>v. load l (apply_op d op) = Inr v"
  unfolding load_works_iff using stored_apply_op by (auto split: loader.splits)

lemma store_step:
  "store (sync_step rt ev) = (case ev of Mutate op \<Rightarrow> apply_op (store rt) op | _ \<Rightarrow> store rt)"
  by (cases ev)
    (simp_all add: fire_def callback_def unsubscribe_def clearInterval_def subscribeToProjects_def
      subscribeToComments_def setInterval_def load_def
      split: option.splits prod.splits sum.splits)

lemma load_works_step:
  "\<exists>v. load l (store rt) = Inr v \<Longrightarrow> \<exists>v. load l (store (sync_step rt ev)) = Inr v"
  by (simp add: store_step load_works_apply_op split: sync_event.splits)

lemma load_works_run:
  "\<exists>v. load l (store rt) = Inr v \<Longrightarrow> \<exists>v. load l (store (sync_run rt evs)) = Inr v"
proof (induction evs arbitrary: rt)
  case Nil
  then show ?case by (simp add: sync_run_def)
next
  case (Cons ev evs)
  have "\<exists>v. load l (store (sync_step rt ev)) = Inr v"
    using Cons.prems by (rule load_works_step)
  then have "\<exists>v. load l (store (sync_run (sync_step rt ev) evs)) = Inr v"
    by (rule Cons.IH)
  then show ?case by (simp add: sync_run_def)
qed

text \<open>
  A subscription that returns has invoked its callback once, and its handle is issued
  from then on and names a timer whose loader works.
\<close>

lemma subscribe_issues_handle:
  "subscribeToComments projectId rt = Inr (h, rt') \<Longrightarrow>
   h = nextTimer rt \<and> h < nextTimer rt' \<and> timers rt' h = Some (LoadComments projectId, 1000) \<and>
   (\<exists>v. load (LoadComments projectId) (store rt') = Inr v \<and> invocations h rt' = invocations h rt @ [v])"
  "subscribeToProjects userId rt = Inr (h, rt') \<Longrightarrow>
   h = nextTimer rt \<and> h < nextTimer rt' \<and> timers rt' h = Some (LoadProjects userId, 2000) \<and>
   (\<exists>v. load (LoadProjects userId) (store rt') = Inr v \<and> invocations h rt' = invocations h rt @ [v])"
  by (auto simp: subscribeToComments_def subscribeToProjects_def setInterval_def callback_def
      invocations_def split: sum.splits)

lemma subscribeToProjects_returns: "\<exists>h rt'. subscribeToProjects userId rt = Inr (h, rt')"
  by (simp add: subscribeToProjects_def load_def setInterval_def)

lemma nextTimer_run: "nextTimer rt \<le> nextTimer (sync_run rt evs)"
proof (induction evs arbitrary: rt)
  case Nil
  then show ?case by (simp add: sync_run_def)
next
  case (Cons ev evs)
  have "nextTimer rt \<le> nextTimer (sync_step rt ev)" by (rule nextTimer_step)
  also have "\<dots> \<le> nextTimer (sync_run (sync_step rt ev) evs)" by (rule Cons.IH)
  finally show ?case by (simp add: sync_run_def)
qed

lemma fire_registered:
  "timers rt k = Some (l, ms) \<Longrightarrow> load l (store rt) = Inr v \<Longrightarrow>
   delivered (fire k rt) = delivered rt @ [(k, v)]"
  by (simp add: fire_def callback_def)

text \<open>
  Claim C9. Let \<open>h\<close> be the handle of a subscription that has been issued. Calling its
  unsubscribe function twice equals calling it once; the call itself invokes no callback;
  and after it, whatever events follow (timers firing, store mutations, further
  subscriptions and unsubscriptions), the callback of \<open>h\<close> is never invoked again.
  Every other subscription \<open>k\<close> that is not itself unsubscribed stays registered; its
  timer, when it fires, delivers the current content of the store that its \<open>load\<close>
  returns; and its \<open>load\<close> returns whenever it returned before the unsubscription, as
  it did when \<open>k\<close> subscribed.
\<close>

theorem unsubscribe_idempotent_and_final:
  assumes "h < nextTimer rt"
  shows "unsubscribe h (unsubscribe h rt) = unsubscribe h rt \<and>
         invocations h (unsubscribe h rt) = invocations h rt \<and>
         invocations h (sync_run (unsubscribe h rt) evs) = invocations h rt \<and>
         (\<forall>k l ms. k \<noteq> h \<and> k < nextTimer rt \<and> timers rt k = Some (l, ms) \<and> Unsubscribe k \<notin> set evs \<longrightarrow>
            timers (sync_run (unsubscribe h rt) evs) k = Some (l, ms) \<and>
            (\<forall>v. load l (store (sync_run (unsubscribe h rt) evs)) = Inr v \<longrightarrow>
               delivered (fire k (sync_run (unsubscribe h rt) evs))
                 = delivered (sync_run (unsubscribe h rt) evs) @ [(k, v)]) \<and>
            ((\<exists>v. load l (store rt) = Inr v) \<longrightarrow>
               (\<exists>v. load l (store (sync_run (unsubscribe h rt) evs)) = Inr v)))"
proof -
  let ?u = "unsubscribe h rt"
  have idem: "unsubscribe h ?u = ?u"
    by (simp add: unsubscribe_def clearInterval_def)
  have now: "invocations h ?u = invocations h rt"
    by (simp add: unsubscribe_def clearInterval_def invocations_def)
  have c: "h < nextTimer ?u" "timers ?u h = None"
    using assms by (simp_all add: unsubscribe_def clearInterval_def)
  have later: "invocations h (sync_run ?u evs) = invocations h rt"
    using cleared_run [OF c, of evs] now by simp
  have others: "timers (sync_run ?u evs) k = Some (l, ms) \<and>
      (\<forall>v. load l (store (sync_run ?u evs)) = Inr v \<longrightarrow>
         delivered (fire k (sync_run ?u evs)) = delivered (sync_run ?u evs) @ [(k, v)]) \<and>
      ((\<exists>v. load l (store rt) = Inr v) \<longrightarrow> (\<exists>v. load l (store (sync_run ?u evs)) = Inr v))"
    if "k \<noteq> h" "k < nextTimer rt" "timers rt k = Some (l, ms)" "Unsubscribe k \<notin> set evs" for k l ms
  proof -
    have "k < nextTimer ?u" "timers ?u k = Some (l, ms)"
      using that by (simp_all add: unsubscribe_def clearInterval_def)
    then have reg: "timers (sync_run ?u evs) k = Some (l, ms)"
      using that(4) by (rule registered_run)
    have st: "store ?u = store rt"
      by (simp add: unsubscribe_def clearInterval_def)
    have "\<exists>v. load l (store (sync_run ?u evs)) = Inr v" if "\<exists>v. load l (store rt) = Inr v"
      using load_works_run [of l ?u evs] that st by simp
    then show ?thesis
      using reg fire_registered [OF reg] by blast
  qed
  show ?thesis using idem now later others by blast
qed

lemma rt2_fields:
  "nextTimer rt2 = 2"
  "timers rt2 1 = Some (LoadComments ''proj_1'', 1000)"
  "invocations 0 rt2 = [CommentsPayload [c1 0]]"
  "load (LoadComments ''proj_1'') (store rt2) = Inr (CommentsPayload [c1 0])"
  by (simp_all add: rt2_def rt0_def sync_run_def subscribeToComments_def setInterval_def
      callback_def load_def loadComments_def readComments_def sort_js_def MOCK_DB_init_def
      invocations_def)

text \<open>
  Two subscribers; the first unsubscribes; a comment is added, both timers fire and the
  first unsubscribes once more: the first has received the initial delivery only, the
  second also the update.
\<close>

theorem unsubscribe_idempotent_and_final_witness:
  "0 < nextTimer rt2 \<and>
   invocations 0 (sync_run (unsubscribe 0 rt2) after_unsubscribe) = [CommentsPayload [c1 0]] \<and>
   timers (sync_run (unsubscribe 0 rt2) after_unsubscribe) 1 = Some (LoadComments ''proj_1'', 1000) \<and>
   (\<exists>v. load (LoadComments ''proj_1'') (store (sync_run (unsubscribe 0 rt2) after_unsubscribe)) = Inr v) \<and>
   map (\<lambda>v. case v of CommentsPayload cs \<Rightarrow> map text_c cs | ProjectsPayload ps \<Rightarrow> [])
     (invocations 1 (sync_run (unsubscribe 0 rt2) after_unsubscribe))
     = [[''Can we make the grass greener here?''],
        [''tighten this cut'', ''Can we make the grass greener here?'']]"
proof -
  have h: "0 < nextTimer rt2"
    by (simp add: rt2_fields)
  have k: "(1::nat) \<noteq> 0 \<and> 1 < nextTimer rt2 \<and> timers rt2 1 = Some (LoadComments ''proj_1'', 1000)
      \<and> Unsubscribe 1 \<notin> set after_unsubscribe"
    using rt2_fields(1,2) by (simp add: after_unsubscribe_def)
  have w: "\<exists>v. load (LoadComments ''proj_1'') (store rt2) = Inr v"
    using rt2_fields(4) by blast
  note t = unsubscribe_idempotent_and_final [OF h, of after_unsubscribe]
  have a: "invocations 0 (sync_run (unsubscribe 0 rt2) after_unsubscribe) = [CommentsPayload [c1 0]]"
    using t rt2_fields(3) by simp
  from t have "\<forall>k l ms. k \<noteq> 0 \<and> k < nextTimer rt2 \<and> timers rt2 k = Some (l, ms) \<and> Unsubscribe k \<notin> set after_unsubscribe \<longrightarrow>
            timers (sync_run (unsubscribe 0 rt2) after_unsubscribe) k = Some (l, ms) \<and>
            (\<forall>v. load l (store (sync_run (unsubscribe 0 rt2) after_unsubscribe)) = Inr v \<longrightarrow>
               delivered (fire k (sync_run (unsubscribe 0 rt2) after_unsubscribe))
                 = delivered (sync_run (unsubscribe 0 rt2) after_unsubscribe) @ [(k, v)]) \<and>
            ((\<exists>v. load l (store rt2) = Inr v) \<longrightarrow>
               (\<exists>v. load l (store (sync_run (unsubscribe 0 rt2) after_unsubscribe)) = Inr v))"
    by (elim conjE)
  with k w have b: "timers (sync_run (unsubscribe 0 rt2) after_unsubscribe) 1 = Some (LoadComments ''proj_1'', 1000)"
    and b2: "\<exists>v. load (LoadComments ''proj_1'') (store (sync_run (unsubscribe 0 rt2) after_unsubscribe)) = Inr v"
    by blast+
  have c: "map (\<lambda>v. case v of CommentsPayload cs \<Rightarrow> map text_c cs | ProjectsPayload ps \<Rightarrow> [])
     (invocations 1 (sync_run (unsubscribe 0 rt2) after_unsubscribe))
     = [[''Can we make the grass greener here?''],
        [''tighten this cut'', ''Can we make the grass greener here?'']]"
    by (simp add: rt2_def rt0_def sync_run_def subscribeToComments_def setInterval_def
      callback_def load_def loadComments_def readComments_def sort_js_def MOCK_DB_init_def
      invocations_def after_unsubscribe_def unsubscribe_def clearInterval_def fire_def
      addComment_def Let_def compareTimestamp_def note_draft_def c1_def
      CommentDraft.defs Comment.defs)
  show ?thesis using h a b b2 c by blast
qed

section \<open>Feedback summary\<close>

text \<open>
  Claim C10. With a non-empty API key and every comment resolved (also for no comment
  at all), \<open>summarizeFeedback\<close> returns the fixed string and issues no request; with
  an empty key it returns the configuration error, again without a request.
\<close>

theorem summarizeFeedback_all_resolved:
  "(AI_API_KEY \<noteq> [] \<longrightarrow> (\<forall>c \<in> set cs. resolved c) \<longrightarrow>
      summarizeFeedback AI_API_KEY prompt generateContent cs videoTitle
        = (''All feedback resolved! Good job.'', [])) \<and>
   (AI_API_KEY = [] \<longrightarrow>
      summarizeFeedback AI_API_KEY prompt generateContent cs videoTitle
        = (''Configuration Error: API_KEY is missing.'', []))"
proof -
  have "filter (\<lambda>c. \<not> resolved c) cs = []" if "\<forall>c \<in> set cs. resolved c"
    using that by (simp add: filter_empty_conv)
  then show ?thesis
    by (simp add: summarizeFeedback_def)
qed

text \<open>One resolved comment, with and without a key.\<close>

theorem summarizeFeedback_all_resolved_witness:
  "summarizeFeedback ''key'' title_prompt offline_service [(c1 0)\<lparr>resolved := True\<rparr>] ''Demo''
     = (''All feedback resolved! Good job.'', []) \<and>
   summarizeFeedback '''' title_prompt offline_service [(c1 0)\<lparr>resolved := True\<rparr>] ''Demo''
     = (''Configuration Error: API_KEY is missing.'', [])"
proof -
  have "''key'' \<noteq> []" "\<forall>c \<in> set [(c1 0)\<lparr>resolved := True\<rparr>]. resolved c"
    by simp_all
  then show ?thesis
    using summarizeFeedback_all_resolved [of "''key''" "[(c1 0)\<lparr>resolved := True\<rparr>]" title_prompt offline_service "''Demo''"]
      summarizeFeedback_all_resolved [of "''''" "[(c1 0)\<lparr>resolved := True\<rparr>]" title_prompt offline_service "''Demo''"]
    by blast
qed

end
